theory Spec2Isabelle
  imports Complex_Main "HOL-Library.AList" "HOL-Library.Multiset"
begin

section \<open>Sports service: standings aggregation, team summary and roster projection\<close>

text \<open>
  A shallow embedding of \<^verbatim>\<open>sports-service/main.py\<close>. The external data provider
  (\<^verbatim>\<open>nfl_data_py\<close>) is a parameter: a record of its three retrieval functions, each of
  which either raises or returns its table. Python dictionaries are association lists, so
  that insertion order (which fixes the order of the emitted records) is part of the model.
\<close>

subsection \<open>Data model\<close>

text \<open>
  One row of the schedule table. A result that pandas reports as missing (NaN) is \<open>None\<close>.
  The source reads \<^verbatim>\<open>home_score\<close>, \<^verbatim>\<open>away_score\<close> and \<^verbatim>\<open>result\<close> as three independent
  columns, and so does the model. Scores are whole numbers.
\<close>

record game =
  home_team :: string
  away_team :: string
  home_score :: int
  away_score :: int
  result :: "int option"

text \<open>The per-team accumulator \<^verbatim>\<open>standings[team]\<close>.\<close>

record stats =
  wins :: int
  losses :: int
  ties :: int
  points_for :: int
  points_against :: int

text \<open>
  An emitted record: the accumulator's five counters together with the team code, the
  win percentage and the two metadata fields. A metadata field that is \<open>None\<close> is a key
  that the dictionary does not have.
\<close>

record standing = stats +
  team_name :: string
  win_pct :: rat
  conference :: "string option"
  division :: "string option"

record team_meta =
  team_conf :: string
  team_division :: string

datatype exn = KeyError string | DataUnavailable string

datatype http_error = HTTPException nat exn

type_synonym standings = "(string \<times> stats) list"

type_synonym team_map = "string \<rightharpoonup> team_meta"

text \<open>A cell of the roster table; \<open>NaN\<close> is a missing value.\<close>

datatype cell = NaN | Str string | Num int

record dataframe =
  columns :: "string list"
  rows :: "(string \<Rightarrow> cell) list"

text \<open>
  The provider. \<open>import_team_desc\<close> stands for the provider's table after
  \<^verbatim>\<open>set_index('team_abbr')[['team_conf', 'team_division']].to_dict('index')\<close>.
\<close>

record provider =
  import_schedules :: "int \<Rightarrow> exn + game list"
  import_team_desc :: "exn + team_map"
  import_seasonal_rosters :: "int \<Rightarrow> exn + dataframe"

subsection \<open>The standings aggregation\<close>

definition and_then :: "exn + 'a \<Rightarrow> ('a \<Rightarrow> exn + 'b) \<Rightarrow> exn + 'b" where
  "and_then r f = (case r of Inl e \<Rightarrow> Inl e | Inr x \<Rightarrow> f x)"

text \<open>\<^verbatim>\<open>games[games['result'].notna()]\<close>\<close>

definition completed :: "game list \<Rightarrow> game list" where
  "completed games = filter (\<lambda>g. result g \<noteq> None) games"

text \<open>
  \<^verbatim>\<open>set(games['home_team'].unique()) | set(games['away_team'].unique())\<close>, in one of the
  orders in which Python may iterate over the set. No statement below depends on the
  order chosen.
\<close>

definition team_universe :: "game list \<Rightarrow> string list" where
  "team_universe games = remdups (map home_team games @ map away_team games)"

definition zero_stats :: stats where
  "zero_stats = \<lparr>wins = 0, losses = 0, ties = 0, points_for = 0, points_against = 0\<rparr>"

definition init_standings :: "string list \<Rightarrow> standings" where
  "init_standings teams = map (\<lambda>team. (team, zero_stats)) teams"

text \<open>
  One statement \<^verbatim>\<open>standings[team][field] += v\<close>: the lookup raises \<^verbatim>\<open>KeyError\<close> for a
  team that is not a key; otherwise the entry is changed in place.
\<close>

definition bump :: "string \<Rightarrow> (stats \<Rightarrow> stats) \<Rightarrow> standings \<Rightarrow> exn + standings" where
  "bump team f st =
     (case map_of st team of
        None \<Rightarrow> Inl (KeyError team)
      | Some s \<Rightarrow> Inr (AList.update team (f s) st))"

text \<open>
  The comparisons \<^verbatim>\<open>res > 0\<close> and \<^verbatim>\<open>res < 0\<close>; both are false for a missing value.
\<close>

definition positive :: "int option \<Rightarrow> bool" where
  "positive res = (case res of None \<Rightarrow> False | Some r \<Rightarrow> r > 0)"

definition negative :: "int option \<Rightarrow> bool" where
  "negative res = (case res of None \<Rightarrow> False | Some r \<Rightarrow> r < 0)"

text \<open>The body of the loop over the games: four point updates, then the record update.\<close>

definition update_game :: "standings \<Rightarrow> game \<Rightarrow> exn + standings" where
  "update_game st0 g =
     (let home = home_team g; away = away_team g;
          hs = home_score g; as = away_score g in
      and_then (bump home (\<lambda>s. s\<lparr>points_for := points_for s + hs\<rparr>) st0) (\<lambda>st1.
      and_then (bump home (\<lambda>s. s\<lparr>points_against := points_against s + as\<rparr>) st1) (\<lambda>st2.
      and_then (bump away (\<lambda>s. s\<lparr>points_for := points_for s + as\<rparr>) st2) (\<lambda>st3.
      and_then (bump away (\<lambda>s. s\<lparr>points_against := points_against s + hs\<rparr>) st3) (\<lambda>st4.
        if positive (result g) then
          and_then (bump home (\<lambda>s. s\<lparr>wins := wins s + 1\<rparr>) st4)
                   (bump away (\<lambda>s. s\<lparr>losses := losses s + 1\<rparr>))
        else if negative (result g) then
          and_then (bump home (\<lambda>s. s\<lparr>losses := losses s + 1\<rparr>) st4)
                   (bump away (\<lambda>s. s\<lparr>wins := wins s + 1\<rparr>))
        else
          and_then (bump home (\<lambda>s. s\<lparr>ties := ties s + 1\<rparr>) st4)
                   (bump away (\<lambda>s. s\<lparr>ties := ties s + 1\<rparr>)))))))"

fun run_games :: "standings \<Rightarrow> game list \<Rightarrow> exn + standings" where
  "run_games st [] = Inr st"
| "run_games st (g # gs) = and_then (update_game st g) (\<lambda>st'. run_games st' gs)"

text \<open>
  \<^verbatim>\<open>team_map.get(team, {'team_conf': 'Unknown', 'team_division': 'Unknown'})\<close>
\<close>

definition lookup_meta :: "team_map \<Rightarrow> string \<Rightarrow> team_meta" where
  "lookup_meta tm team =
     (case tm team of
        None \<Rightarrow> \<lparr>team_conf = ''Unknown'', team_division = ''Unknown''\<rparr>
      | Some m \<Rightarrow> m)"

text \<open>
  The win percentage of an accumulator. The source divides in floating point; the model
  divides exactly.
\<close>

definition win_pct_of :: "stats \<Rightarrow> rat" where
  "win_pct_of s =
     (let total_games = wins s + losses s + ties s in
      if total_games > 0
      then (of_int (wins s) + (1 / 2) * of_int (ties s)) / of_int total_games
      else 0)"

definition make_record :: "team_map \<Rightarrow> string \<times> stats \<Rightarrow> standing" where
  "make_record tm entry =
     (let team = fst entry; s = snd entry; meta = lookup_meta tm team in
      \<lparr>wins = wins s, losses = losses s, ties = ties s,
       points_for = points_for s, points_against = points_against s,
       team_name = team, win_pct = win_pct_of s,
       conference = Some (team_conf meta), division = Some (team_division meta)\<rparr>)"

definition calculate_standings :: "provider \<Rightarrow> int \<Rightarrow> exn + standing list" where
  "calculate_standings nfl year =
     and_then (import_schedules nfl year) (\<lambda>schedule.
       let games = completed schedule;
           teams = team_universe games in
       and_then (run_games (init_standings teams) games) (\<lambda>st.
       and_then (import_team_desc nfl) (\<lambda>tm.
         Inr (map (make_record tm) st))))"

subsection \<open>The endpoints\<close>

definition get_standings :: "provider \<Rightarrow> int \<Rightarrow> http_error + standing list" where
  "get_standings nfl year =
     (case calculate_standings nfl year of
        Inl e \<Rightarrow> Inl (HTTPException 500 e)
      | Inr data \<Rightarrow> Inr data)"

text \<open>The record substituted when no emitted record has the team code \<^verbatim>\<open>CHI\<close>.\<close>

definition placeholder :: standing where
  "placeholder =
     \<lparr>wins = 0, losses = 0, ties = 0, points_for = 0, points_against = 0,
      team_name = ''CHI'', win_pct = 0, conference = None, division = None\<rparr>"

text \<open>
  \<^verbatim>\<open>next((t for t in data if t['team_name'] == 'CHI'), None)\<close> is \<open>find\<close>; an emitted
  record is a dictionary with nine keys and therefore true in \<^verbatim>\<open>if not bears\<close>.
\<close>

definition get_bears_summary :: "provider \<Rightarrow> int \<Rightarrow> http_error + standing" where
  "get_bears_summary nfl year =
     (case calculate_standings nfl year of
        Inl e \<Rightarrow> Inl (HTTPException 500 e)
      | Inr data \<Rightarrow>
          Inr (case find (\<lambda>t. team_name t = ''CHI'') data of
                 None \<Rightarrow> placeholder
               | Some bears \<Rightarrow> bears))"

definition cols_to_keep :: "string list" where
  "cols_to_keep = [''player_name'', ''position'', ''jersey_number'', ''status'',
                   ''college'', ''years_exp'', ''headshot_url'']"

definition fillna :: "cell \<Rightarrow> cell" where
  "fillna c = (case c of NaN \<Rightarrow> Str [] | _ \<Rightarrow> c)"

text \<open>
  \<^verbatim>\<open>df['team']\<close> raises \<^verbatim>\<open>KeyError\<close> when the table has no such column. An entry of the
  answer is a dictionary from column name to value, in the order of its keys.
\<close>

definition get_bears_roster ::
  "provider \<Rightarrow> int \<Rightarrow> http_error + (string \<times> cell) list list" where
  "get_bears_roster nfl year =
     (case import_seasonal_rosters nfl year of
        Inl e \<Rightarrow> Inl (HTTPException 500 e)
      | Inr df \<Rightarrow>
          if ''team'' \<notin> set (columns df) then Inl (HTTPException 500 (KeyError ''team''))
          else
            let bears_rows = filter (\<lambda>r. r ''team'' = Str ''CHI'') (rows df);
                available_cols = filter (\<lambda>c. c \<in> set (columns df)) cols_to_keep
            in Inr (map (\<lambda>r. map (\<lambda>c. (c, fillna (r c))) available_cols) bears_rows))"

subsection \<open>What one game contributes to one team\<close>

text \<open>
  The following functions are not part of the source; they describe the loop's effect in
  closed form. A team is credited once for being the home team of a game and once for
  being its away team.
\<close>

definition win_credit :: "game \<Rightarrow> string \<Rightarrow> int" where
  "win_credit g t =
     (if t = home_team g \<and> positive (result g) then 1 else 0) +
     (if t = away_team g \<and> negative (result g) then 1 else 0)"

definition loss_credit :: "game \<Rightarrow> string \<Rightarrow> int" where
  "loss_credit g t =
     (if t = home_team g \<and> negative (result g) then 1 else 0) +
     (if t = away_team g \<and> positive (result g) then 1 else 0)"

definition tie_credit :: "game \<Rightarrow> string \<Rightarrow> int" where
  "tie_credit g t =
     (if t = home_team g \<and> \<not> positive (result g) \<and> \<not> negative (result g) then 1 else 0) +
     (if t = away_team g \<and> \<not> positive (result g) \<and> \<not> negative (result g) then 1 else 0)"

definition pf_credit :: "game \<Rightarrow> string \<Rightarrow> int" where
  "pf_credit g t =
     (if t = home_team g then home_score g else 0) +
     (if t = away_team g then away_score g else 0)"

definition pa_credit :: "game \<Rightarrow> string \<Rightarrow> int" where
  "pa_credit g t =
     (if t = home_team g then away_score g else 0) +
     (if t = away_team g then home_score g else 0)"

definition credit :: "game \<Rightarrow> string \<Rightarrow> stats \<Rightarrow> stats" where
  "credit g t s =
     s\<lparr>wins := wins s + win_credit g t,
       losses := losses s + loss_credit g t,
       ties := ties s + tie_credit g t,
       points_for := points_for s + pf_credit g t,
       points_against := points_against s + pa_credit g t\<rparr>"

fun tally :: "game list \<Rightarrow> string \<Rightarrow> stats \<Rightarrow> stats" where
  "tally [] t s = s"
| "tally (g # gs) t s = tally gs t (credit g t s)"

text \<open>
  How often a team is the home team, how often the away team, and in how many games it
  takes part, in a list of games.
\<close>

definition home_games :: "game list \<Rightarrow> string \<Rightarrow> nat" where
  "home_games gs t = length (filter (\<lambda>g. home_team g = t) gs)"

definition away_games :: "game list \<Rightarrow> string \<Rightarrow> nat" where
  "away_games gs t = length (filter (\<lambda>g. away_team g = t) gs)"

definition games_played :: "game list \<Rightarrow> string \<Rightarrow> nat" where
  "games_played gs t = length (filter (\<lambda>g. home_team g = t \<or> away_team g = t) gs)"

text \<open>The five counters of an emitted record.\<close>

definition counters :: "standing \<Rightarrow> int \<times> int \<times> int \<times> int \<times> int" where
  "counters r = (wins r, losses r, ties r, points_for r, points_against r)"

text \<open>
  \<open>acts st F r\<close>: the computation \<open>r\<close>, started on the dictionary \<open>st\<close>, raises nothing,
  keeps the keys and their order, and changes the entry of every team \<open>t\<close> by \<open>F t\<close>.
\<close>

definition acts :: "standings \<Rightarrow> (string \<Rightarrow> stats \<Rightarrow> stats) \<Rightarrow> exn + standings \<Rightarrow> bool" where
  "acts st F r =
     (\<exists>st'. r = Inr st' \<and> map fst st' = map fst st \<and>
            (\<forall>t. map_of st' t = map_option (F t) (map_of st t)))"

subsection \<open>Sample data\<close>

text \<open>
  A small season, used to instantiate the statements below: three played games (a home
  win, a tie and an away win) and one game that has not been played. \<^verbatim>\<open>DET\<close> has no
  metadata. The season 2024 has no played game.
\<close>

definition sample_schedule :: "game list" where
  "sample_schedule =
     [\<lparr>home_team = ''CHI'', away_team = ''GB'', home_score = 24, away_score = 17,
       result = Some 7\<rparr>,
      \<lparr>home_team = ''GB'', away_team = ''DET'', home_score = 14, away_score = 14,
       result = Some 0\<rparr>,
      \<lparr>home_team = ''DET'', away_team = ''CHI'', home_score = 10, away_score = 20,
       result = Some (- 10)\<rparr>,
      \<lparr>home_team = ''CHI'', away_team = ''DET'', home_score = 0, away_score = 0,
       result = None\<rparr>]"

definition opening_game :: game where
  "opening_game =
     \<lparr>home_team = ''CHI'', away_team = ''GB'', home_score = 24, away_score = 17,
      result = Some 7\<rparr>"

definition preseason_schedule :: "game list" where
  "preseason_schedule =
     [\<lparr>home_team = ''CHI'', away_team = ''GB'', home_score = 0, away_score = 0,
       result = None\<rparr>]"

definition sample_teams :: team_map where
  "sample_teams =
     [''CHI'' \<mapsto> \<lparr>team_conf = ''NFC'', team_division = ''NFC North''\<rparr>,
      ''GB'' \<mapsto> \<lparr>team_conf = ''NFC'', team_division = ''NFC North''\<rparr>]"

definition row_of :: "(string \<times> cell) list \<Rightarrow> string \<Rightarrow> cell" where
  "row_of al c = (case map_of al c of None \<Rightarrow> NaN | Some v \<Rightarrow> v)"

definition sample_roster :: dataframe where
  "sample_roster =
     \<lparr>columns = [''team'', ''player_name'', ''position'', ''jersey_number'', ''status'',
                 ''college'', ''years_exp'', ''headshot_url'', ''age''],
      rows = [row_of [(''team'', Str ''CHI''), (''player_name'', Str ''A. Back''),
                      (''position'', Str ''RB''), (''jersey_number'', Num 32),
                      (''status'', Str ''ACT''), (''years_exp'', Num 2), (''age'', Num 24)],
              row_of [(''team'', Str ''GB''), (''player_name'', Str ''B. Guard''),
                      (''position'', Str ''G''), (''jersey_number'', Num 70)]]\<rparr>"

definition sparse_roster :: dataframe where
  "sparse_roster =
     \<lparr>columns = [''team'', ''player_name'', ''position''],
      rows = [row_of [(''team'', Str ''CHI''), (''player_name'', Str ''A. Back'')]]\<rparr>"

definition sample_nfl :: provider where
  "sample_nfl =
     \<lparr>import_schedules = (\<lambda>year. if year = 2023 then Inr sample_schedule
                                 else if year = 2024 then Inr preseason_schedule
                                 else Inl (DataUnavailable ''no schedule'')),
      import_team_desc = Inr sample_teams,
      import_seasonal_rosters = (\<lambda>year. if year = 2023 then Inr sample_roster
                                        else if year = 2024 then Inr sparse_roster
                                        else Inl (DataUnavailable ''no roster''))\<rparr>"

text \<open>The same season with its games listed in the opposite order.\<close>

definition reversed_nfl :: provider where
  "reversed_nfl = sample_nfl\<lparr>import_schedules := (\<lambda>year. Inr (rev sample_schedule))\<rparr>"

section \<open>Properties\<close>

subsection \<open>The loop body and the loop\<close>

lemma positive_not_negative: "positive r \<Longrightarrow> \<not> negative r"
  by (cases r) (simp_all add: positive_def negative_def)

lemma key_has_entry: "team \<in> set (map fst st) \<Longrightarrow> \<exists>s. map_of st team = Some s"
  by (cases "map_of st team") (simp_all add: map_of_eq_None_iff)

lemma acts_bump:
  assumes "team \<in> set (map fst st)"
  shows "acts st (\<lambda>t x. if t = team then f x else x) (bump team f st)"
proof -
  from key_has_entry[OF assms] obtain s where s: "map_of st team = Some s" ..
  have keys: "map fst (AList.update team (f s) st) = map fst st"
    using assms by (simp only: update_keys if_True)
  have vals: "map_of (AList.update team (f s) st) t =
                map_option (\<lambda>x. if t = team then f x else x) (map_of st t)" for t
  proof (cases "t = team")
    case True
    then show ?thesis using s by (simp add: update_conv')
  next
    case False
    then show ?thesis by (cases "map_of st t") (simp_all add: update_conv')
  qed
  have b: "bump team f st = Inr (AList.update team (f s) st)"
    using s by (simp add: bump_def)
  show ?thesis
    unfolding acts_def
    by (intro exI[of _ "AList.update team (f s) st"] conjI allI) (rule b, rule keys, rule vals)
qed

lemma acts_and_then:
  assumes "acts st F r"
    and "\<And>st'. map fst st' = map fst st \<Longrightarrow> acts st' G (k st')"
  shows "acts st (\<lambda>t. G t \<circ> F t) (and_then r k)"
proof -
  from assms(1) obtain st1 where r: "r = Inr st1" and k1: "map fst st1 = map fst st"
    and v1: "\<And>t. map_of st1 t = map_option (F t) (map_of st t)"
    unfolding acts_def by blast
  from assms(2)[OF k1] obtain st2 where k: "k st1 = Inr st2" and k2: "map fst st2 = map fst st1"
    and v2: "\<And>t. map_of st2 t = map_option (G t) (map_of st1 t)"
    unfolding acts_def by blast
  have e: "and_then r k = Inr st2"
    using r k by (simp add: and_then_def)
  have keys: "map fst st2 = map fst st"
    using k1 k2 by simp
  have vals: "map_of st2 t = map_option (G t \<circ> F t) (map_of st t)" for t
    by (simp add: v1 v2 option.map_comp)
  show ?thesis
    unfolding acts_def
    by (intro exI[of _ st2] conjI allI) (rule e, rule keys, rule vals)
qed

lemma acts_cong:
  assumes "acts st F r" and "\<And>t s. F t s = G t s"
  shows "acts st G r"
proof -
  have "F = G" by (intro ext) (rule assms(2))
  then show ?thesis using assms(1) by simp
qed

lemma acts_update_game:
  assumes h: "home_team g \<in> set (map fst st)" and a: "away_team g \<in> set (map fst st)"
  shows "acts st (credit g) (update_game st g)"
proof -
  have pos: "acts st (credit g) (update_game st g)" if "positive (result g)"
    apply (simp only: update_game_def Let_def that if_True)
    apply (rule acts_cong)
     apply (rule acts_and_then, rule acts_bump, simp only: h)
     apply (rule acts_and_then, rule acts_bump, simp only: h)
     apply (rule acts_and_then, rule acts_bump, simp only: a)
     apply (rule acts_and_then, rule acts_bump, simp only: a)
     apply (rule acts_and_then, rule acts_bump, simp only: h)
     apply (rule acts_bump, simp only: a)
    using that positive_not_negative[of "result g"]
    apply (simp add: credit_def win_credit_def loss_credit_def tie_credit_def
        pf_credit_def pa_credit_def)
    done
  have neg: "acts st (credit g) (update_game st g)"
    if "\<not> positive (result g)" "negative (result g)"
    apply (simp only: update_game_def Let_def that if_True if_False)
    apply (rule acts_cong)
     apply (rule acts_and_then, rule acts_bump, simp only: h)
     apply (rule acts_and_then, rule acts_bump, simp only: h)
     apply (rule acts_and_then, rule acts_bump, simp only: a)
     apply (rule acts_and_then, rule acts_bump, simp only: a)
     apply (rule acts_and_then, rule acts_bump, simp only: h)
     apply (rule acts_bump, simp only: a)
    using that
    apply (simp add: credit_def win_credit_def loss_credit_def tie_credit_def
        pf_credit_def pa_credit_def)
    done
  have tie: "acts st (credit g) (update_game st g)"
    if "\<not> positive (result g)" "\<not> negative (result g)"
    apply (simp only: update_game_def Let_def that if_True if_False)
    apply (rule acts_cong)
     apply (rule acts_and_then, rule acts_bump, simp only: h)
     apply (rule acts_and_then, rule acts_bump, simp only: h)
     apply (rule acts_and_then, rule acts_bump, simp only: a)
     apply (rule acts_and_then, rule acts_bump, simp only: a)
     apply (rule acts_and_then, rule acts_bump, simp only: h)
     apply (rule acts_bump, simp only: a)
    using that
    apply (simp add: credit_def win_credit_def loss_credit_def tie_credit_def
        pf_credit_def pa_credit_def)
    done
  show ?thesis using pos neg tie by blast
qed

lemma acts_run_games:
  assumes "\<forall>g \<in> set gs. home_team g \<in> set (map fst st) \<and> away_team g \<in> set (map fst st)"
  shows "acts st (tally gs) (run_games st gs)"
  using assms
proof (induction gs arbitrary: st)
  case Nil
  show ?case by (simp add: acts_def option.map_ident)
next
  case (Cons g gs)
  have first: "acts st (credit g) (update_game st g)"
    using Cons.prems by (intro acts_update_game) simp_all
  have rest: "acts st' (tally gs) (run_games st' gs)" if "map fst st' = map fst st" for st'
    using Cons.prems that by (intro Cons.IH) simp
  have "acts st (\<lambda>t. tally gs t \<circ> credit g t) (and_then (update_game st g) (\<lambda>st'. run_games st' gs))"
    using first rest by (rule acts_and_then)
  then have "acts st (tally (g # gs)) (and_then (update_game st g) (\<lambda>st'. run_games st' gs))"
    by (rule acts_cong) simp
  then show ?case by (simp only: run_games.simps)
qed

lemma tally_fields:
  "tally gs t s =
     s\<lparr>wins := wins s + (\<Sum>g\<leftarrow>gs. win_credit g t),
       losses := losses s + (\<Sum>g\<leftarrow>gs. loss_credit g t),
       ties := ties s + (\<Sum>g\<leftarrow>gs. tie_credit g t),
       points_for := points_for s + (\<Sum>g\<leftarrow>gs. pf_credit g t),
       points_against := points_against s + (\<Sum>g\<leftarrow>gs. pa_credit g t)\<rparr>"
  by (induction gs arbitrary: s) (simp_all add: credit_def add.assoc)

lemma alist_by_keys:
  assumes "distinct (map fst xs)"
    and "\<And>k. k \<in> set (map fst xs) \<Longrightarrow> map_of xs k = Some (f k)"
  shows "xs = map (\<lambda>k. (k, f k)) (map fst xs)"
  using assms
proof (induction xs)
  case Nil
  show ?case by simp
next
  case (Cons x xs)
  obtain k v where x: "x = (k, v)" by (cases x)
  from Cons.prems(1) x have nk: "k \<notin> set (map fst xs)" and d: "distinct (map fst xs)"
    by simp_all
  have "map_of (x # xs) k = Some (f k)"
    by (rule Cons.prems(2)) (simp add: x)
  then have v: "v = f k" by (simp add: x)
  have tail: "map_of xs k' = Some (f k')" if "k' \<in> set (map fst xs)" for k'
  proof -
    from that nk have "k' \<noteq> k" by blast
    moreover have "map_of (x # xs) k' = Some (f k')"
      by (rule Cons.prems(2)) (use that in simp)
    ultimately show ?thesis by (simp add: x)
  qed
  have "xs = map (\<lambda>k. (k, f k)) (map fst xs)"
    using d tail by (rule Cons.IH)
  then show ?case using x v by simp
qed

lemma keys_init: "map fst (init_standings teams) = teams"
  by (simp add: init_standings_def comp_def)

lemma map_of_init:
  "t \<in> set teams \<Longrightarrow> map_of (init_standings teams) t = Some zero_stats"
  by (induction teams) (auto simp: init_standings_def)

lemma distinct_team_universe: "distinct (team_universe gs)"
  by (simp add: team_universe_def)

lemma set_team_universe: "set (team_universe gs) = home_team ` set gs \<union> away_team ` set gs"
  by (simp add: team_universe_def)

lemma run_games_closed:
  "run_games (init_standings (team_universe gs)) gs =
     Inr (map (\<lambda>t. (t, tally gs t zero_stats)) (team_universe gs))"
proof -
  let ?ts = "team_universe gs"
  have "acts (init_standings ?ts) (tally gs) (run_games (init_standings ?ts) gs)"
    by (rule acts_run_games) (simp add: keys_init set_team_universe)
  then obtain st' where r: "run_games (init_standings ?ts) gs = Inr st'"
    and k: "map fst st' = ?ts"
    and v: "\<And>t. map_of st' t = map_option (tally gs t) (map_of (init_standings ?ts) t)"
    unfolding acts_def keys_init by blast
  have "st' = map (\<lambda>t. (t, tally gs t zero_stats)) (map fst st')"
    by (rule alist_by_keys) (simp_all add: k v distinct_team_universe map_of_init)
  then show ?thesis using r k by simp
qed

lemma calculate_standings_closed:
  assumes "import_schedules nfl year = Inr schedule" and "import_team_desc nfl = Inr tm"
  shows "calculate_standings nfl year =
           Inr (map (\<lambda>t. make_record tm (t, tally (completed schedule) t zero_stats))
                    (team_universe (completed schedule)))"
  using assms
  by (simp add: calculate_standings_def and_then_def Let_def run_games_closed comp_def)

lemma make_record_fields:
  "wins (make_record tm (t, s)) = wins s"
  "losses (make_record tm (t, s)) = losses s"
  "ties (make_record tm (t, s)) = ties s"
  "points_for (make_record tm (t, s)) = points_for s"
  "points_against (make_record tm (t, s)) = points_against s"
  "team_name (make_record tm (t, s)) = t"
  "win_pct (make_record tm (t, s)) = win_pct_of s"
  "conference (make_record tm (t, s)) = Some (team_conf (lookup_meta tm t))"
  "division (make_record tm (t, s)) = Some (team_division (lookup_meta tm t))"
  by (simp_all add: make_record_def Let_def)

lemma tally_zero_fields:
  "wins (tally gs t zero_stats) = (\<Sum>g\<leftarrow>gs. win_credit g t)"
  "losses (tally gs t zero_stats) = (\<Sum>g\<leftarrow>gs. loss_credit g t)"
  "ties (tally gs t zero_stats) = (\<Sum>g\<leftarrow>gs. tie_credit g t)"
  "points_for (tally gs t zero_stats) = (\<Sum>g\<leftarrow>gs. pf_credit g t)"
  "points_against (tally gs t zero_stats) = (\<Sum>g\<leftarrow>gs. pa_credit g t)"
  by (simp_all add: tally_fields zero_stats_def)

lemma sum_list_swap:
  "(\<Sum>t\<leftarrow>ts. \<Sum>g\<leftarrow>gs. f g t) = (\<Sum>g\<leftarrow>gs. \<Sum>t\<leftarrow>ts. (f g t :: int))"
  by (induction ts) (simp_all add: sum_list_addf)

lemma indicator_sum:
  "distinct ts \<Longrightarrow>
     (\<Sum>t\<leftarrow>ts. if t = x \<and> P then c else 0) = (if x \<in> set ts \<and> P then (c::int) else 0)"
  by (induction ts) auto

lemma indicator_sum':
  "distinct ts \<Longrightarrow> (\<Sum>t\<leftarrow>ts. if t = x then c else 0) = (if x \<in> set ts then (c::int) else 0)"
  using indicator_sum[of ts x True c] by simp

lemma credit_sums:
  assumes "distinct ts" and "home_team g \<in> set ts" and "away_team g \<in> set ts"
  shows "(\<Sum>t\<leftarrow>ts. win_credit g t) =
           (if positive (result g) then 1 else 0) + (if negative (result g) then 1 else 0)"
    and "(\<Sum>t\<leftarrow>ts. loss_credit g t) =
           (if positive (result g) then 1 else 0) + (if negative (result g) then 1 else 0)"
    and "(\<Sum>t\<leftarrow>ts. pf_credit g t) = home_score g + away_score g"
    and "(\<Sum>t\<leftarrow>ts. pa_credit g t) = home_score g + away_score g"
  using assms
  by (simp_all add: win_credit_def loss_credit_def pf_credit_def pa_credit_def
      sum_list_addf indicator_sum indicator_sum')

lemma universe_covers:
  "g \<in> set gs \<Longrightarrow> home_team g \<in> set (team_universe gs) \<and> away_team g \<in> set (team_universe gs)"
  by (simp add: set_team_universe)

subsection \<open>Totals over all teams\<close>

text \<open>
  C1. Whenever the provider supplies the schedule and the team table, the aggregation
  returns, and the wins of all emitted records add up to the same number as their losses.
\<close>

theorem wins_total_eq_losses_total:
  assumes "import_schedules nfl year = Inr schedule" and "import_team_desc nfl = Inr tm"
  shows "\<exists>data. calculate_standings nfl year = Inr data \<and>
           sum_list (map wins data) = sum_list (map losses data)"
proof -
  let ?gs = "completed schedule"
  let ?ts = "team_universe ?gs"
  have per_game: "(\<Sum>t\<leftarrow>?ts. win_credit g t) = (\<Sum>t\<leftarrow>?ts. loss_credit g t)"
    if "g \<in> set ?gs" for g
    using universe_covers[OF that] by (simp add: credit_sums distinct_team_universe)
  have "(\<Sum>t\<leftarrow>?ts. \<Sum>g\<leftarrow>?gs. win_credit g t) = (\<Sum>g\<leftarrow>?gs. \<Sum>t\<leftarrow>?ts. win_credit g t)"
    by (rule sum_list_swap)
  also have "\<dots> = (\<Sum>g\<leftarrow>?gs. \<Sum>t\<leftarrow>?ts. loss_credit g t)"
  proof -
    have "map (\<lambda>g. \<Sum>t\<leftarrow>?ts. win_credit g t) ?gs = map (\<lambda>g. \<Sum>t\<leftarrow>?ts. loss_credit g t) ?gs"
      by (rule map_cong[OF refl]) (rule per_game)
    then show ?thesis by (rule arg_cong)
  qed
  also have "\<dots> = (\<Sum>t\<leftarrow>?ts. \<Sum>g\<leftarrow>?gs. loss_credit g t)"
    by (rule sum_list_swap[symmetric])
  finally have "(\<Sum>t\<leftarrow>?ts. \<Sum>g\<leftarrow>?gs. win_credit g t) = (\<Sum>t\<leftarrow>?ts. \<Sum>g\<leftarrow>?gs. loss_credit g t)" .
  then show ?thesis
    by (simp add: calculate_standings_closed[OF assms] comp_def make_record_fields
        tally_zero_fields)
qed

theorem wins_total_eq_losses_total_witness:
  "import_schedules sample_nfl 2023 = Inr sample_schedule \<and>
   import_team_desc sample_nfl = Inr sample_teams \<and>
   (\<exists>data. calculate_standings sample_nfl 2023 = Inr data \<and>
      sum_list (map wins data) = sum_list (map losses data))"
proof -
  have s: "import_schedules sample_nfl 2023 = Inr sample_schedule"
    by (simp add: sample_nfl_def)
  have t: "import_team_desc sample_nfl = Inr sample_teams"
    by (simp add: sample_nfl_def)
  show ?thesis
    using s t wins_total_eq_losses_total[OF s t] by simp
qed

lemma emitted_record:
  assumes "import_schedules nfl year = Inr schedule" and "import_team_desc nfl = Inr tm"
    and "calculate_standings nfl year = Inr data" and "r \<in> set data"
  obtains t where "t \<in> set (team_universe (completed schedule))"
    and "r = make_record tm (t, tally (completed schedule) t zero_stats)"
proof -
  have "data = map (\<lambda>t. make_record tm (t, tally (completed schedule) t zero_stats))
                   (team_universe (completed schedule))"
    using assms(3) by (simp add: calculate_standings_closed[OF assms(1,2)])
  with assms(4) that show thesis by auto
qed

lemma decided_credit:
  "win_credit g t + loss_credit g t + tie_credit g t =
     (if t = home_team g then 1 else 0) + (if t = away_team g then 1 else 0)"
  using positive_not_negative[of "result g"]
  by (simp add: win_credit_def loss_credit_def tie_credit_def)

lemma decided_total:
  "(\<Sum>g\<leftarrow>gs. win_credit g t) + (\<Sum>g\<leftarrow>gs. loss_credit g t) + (\<Sum>g\<leftarrow>gs. tie_credit g t) =
     int (home_games gs t) + int (away_games gs t)"
proof (induction gs)
  case Nil
  show ?case by (simp add: home_games_def away_games_def)
next
  case (Cons g gs)
  have "(\<Sum>x\<leftarrow>g # gs. win_credit x t) + (\<Sum>x\<leftarrow>g # gs. loss_credit x t)
          + (\<Sum>x\<leftarrow>g # gs. tie_credit x t)
        = (win_credit g t + loss_credit g t + tie_credit g t)
          + ((\<Sum>x\<leftarrow>gs. win_credit x t) + (\<Sum>x\<leftarrow>gs. loss_credit x t) + (\<Sum>x\<leftarrow>gs. tie_credit x t))"
    by simp
  also have "\<dots> = (if t = home_team g then 1 else 0) + (if t = away_team g then 1 else 0)
                    + (int (home_games gs t) + int (away_games gs t))"
    by (simp only: decided_credit Cons.IH)
  also have "\<dots> = int (home_games (g # gs) t) + int (away_games (g # gs) t)"
    by (simp add: home_games_def away_games_def)
  finally show ?case .
qed

lemma appearances_games_played:
  "\<forall>g \<in> set gs. home_team g \<noteq> away_team g \<Longrightarrow>
     home_games gs t + away_games gs t = games_played gs t"
  by (induction gs) (auto simp: home_games_def away_games_def games_played_def)

lemma universe_appears:
  "t \<in> set (team_universe gs) \<Longrightarrow> 1 \<le> home_games gs t + away_games gs t"
proof (induction gs)
  case Nil
  then show ?case by (simp add: team_universe_def)
next
  case (Cons g gs)
  show ?case
  proof (cases "t = home_team g \<or> t = away_team g")
    case True
    then show ?thesis by (auto simp: home_games_def away_games_def)
  next
    case False
    with Cons.prems have "t \<in> set (team_universe gs)"
      by (auto simp: set_team_universe)
    from Cons.IH[OF this] False show ?thesis
      by (simp add: home_games_def away_games_def)
  qed
qed

lemma credits_nonneg:
  "0 \<le> win_credit g t" "0 \<le> loss_credit g t" "0 \<le> tie_credit g t"
  by (simp_all add: win_credit_def loss_credit_def tie_credit_def)

lemma tally_nonneg:
  "0 \<le> wins (tally gs t zero_stats)"
  "0 \<le> losses (tally gs t zero_stats)"
  "0 \<le> ties (tally gs t zero_stats)"
  unfolding tally_zero_fields
  by (rule sum_list_nonneg, auto simp: credits_nonneg)+

lemma win_pct_of_bounds:
  assumes "0 \<le> wins s" and "0 \<le> losses s" and "0 \<le> ties s"
  shows "0 \<le> win_pct_of s \<and> win_pct_of s \<le> 1"
proof (cases "0 < wins s + losses s + ties s")
  case False
  then show ?thesis by (simp add: win_pct_of_def Let_def)
next
  case True
  let ?w = "of_int (wins s) :: rat" and ?l = "of_int (losses s) :: rat"
    and ?t = "of_int (ties s) :: rat"
  have nn: "0 \<le> ?w" "0 \<le> ?l" "0 \<le> ?t" using assms by simp_all
  have pos: "0 < ?w + ?l + ?t"
    using True by (metis of_int_0_less_iff of_int_add)
  have eq: "win_pct_of s = (?w + (1 / 2) * ?t) / (?w + ?l + ?t)"
    using True by (simp add: win_pct_of_def Let_def)
  have "0 \<le> (?w + (1 / 2) * ?t) / (?w + ?l + ?t)"
    using nn pos by (intro divide_nonneg_pos add_nonneg_nonneg) simp_all
  moreover have "(?w + (1 / 2) * ?t) / (?w + ?l + ?t) \<le> 1"
    using nn pos by (simp add: divide_le_eq)
  ultimately show ?thesis by (simp only: eq)
qed


lemma sample_standings:
  "calculate_standings sample_nfl 2023 =
     Inr [\<lparr>wins = 0, losses = 1, ties = 1, points_for = 31, points_against = 38,
           team_name = ''GB'', win_pct = 1 / 4,
           conference = Some ''NFC'', division = Some ''NFC North''\<rparr>,
          \<lparr>wins = 0, losses = 1, ties = 1, points_for = 24, points_against = 34,
           team_name = ''DET'', win_pct = 1 / 4,
           conference = Some ''Unknown'', division = Some ''Unknown''\<rparr>,
          \<lparr>wins = 2, losses = 0, ties = 0, points_for = 44, points_against = 27,
           team_name = ''CHI'', win_pct = 1,
           conference = Some ''NFC'', division = Some ''NFC North''\<rparr>]"
  by code_simp



subsection \<open>Games per team\<close>

text \<open>
  C2. A game is played by two teams. When no retained game lists one team as home and as
  away, wins + losses + ties of every emitted record is the number of retained games in
  which the record's team is the home or the away team.
\<close>

theorem decided_games_are_games_played:
  assumes "import_schedules nfl year = Inr schedule" and "import_team_desc nfl = Inr tm"
    and "\<forall>g \<in> set (completed schedule). home_team g \<noteq> away_team g"
  shows "\<exists>data. calculate_standings nfl year = Inr data \<and>
           (\<forall>r \<in> set data.
              wins r + losses r + ties r =
                int (games_played (completed schedule) (team_name r)))"
proof -
  let ?gs = "completed schedule"
  obtain data where data: "calculate_standings nfl year = Inr data"
    using calculate_standings_closed[OF assms(1,2)] by simp
  have played: "wins r + losses r + ties r = int (games_played ?gs (team_name r))"
    if "r \<in> set data" for r
  proof -
    from emitted_record[OF assms(1,2) data that] obtain t
      where r: "r = make_record tm (t, tally ?gs t zero_stats)" by blast
    have "wins r + losses r + ties r =
            int (home_games ?gs (team_name r)) + int (away_games ?gs (team_name r))"
      by (simp only: r make_record_fields tally_zero_fields decided_total)
    with appearances_games_played[OF assms(3), of "team_name r"] show ?thesis
      by simp
  qed
  show ?thesis
    using data played by blast
qed

theorem decided_games_are_games_played_witness:
  "import_schedules sample_nfl 2023 = Inr sample_schedule \<and>
   import_team_desc sample_nfl = Inr sample_teams \<and>
   list_all (\<lambda>g. home_team g \<noteq> away_team g) (completed sample_schedule) \<and>
   (\<exists>data. calculate_standings sample_nfl 2023 = Inr data \<and>
      (\<forall>r \<in> set data.
         wins r + losses r + ties r =
           int (games_played (completed sample_schedule) (team_name r))))"
proof -
  have s: "import_schedules sample_nfl 2023 = Inr sample_schedule"
    by (simp add: sample_nfl_def)
  have t: "import_team_desc sample_nfl = Inr sample_teams"
    by (simp add: sample_nfl_def)
  have l: "list_all (\<lambda>g. home_team g \<noteq> away_team g) (completed sample_schedule)"
    by (simp add: completed_def sample_schedule_def)
  then have d: "\<forall>g \<in> set (completed sample_schedule). home_team g \<noteq> away_team g"
    by (simp only: list_all_iff)
  show ?thesis
    by (intro conjI s t l decided_games_are_games_played[OF s t d])
qed

text \<open>
  C8. Every emitted record has at least one decided game, so the guard of the win
  percentage is never false and the percentage is the quotient itself.
\<close>

theorem every_record_has_a_decided_game:
  assumes "import_schedules nfl year = Inr schedule" and "import_team_desc nfl = Inr tm"
  shows "\<exists>data. calculate_standings nfl year = Inr data \<and>
           (\<forall>r \<in> set data.
              1 \<le> wins r + losses r + ties r \<and>
              win_pct r = (of_int (wins r) + (1 / 2) * of_int (ties r))
                            / of_int (wins r + losses r + ties r))"
proof -
  let ?gs = "completed schedule"
  obtain data where data: "calculate_standings nfl year = Inr data"
    using calculate_standings_closed[OF assms] by simp
  have one: "1 \<le> wins r + losses r + ties r \<and>
             win_pct r = (of_int (wins r) + (1 / 2) * of_int (ties r))
                           / of_int (wins r + losses r + ties r)"
    if "r \<in> set data" for r
  proof -
    from emitted_record[OF assms data that] obtain t
      where t: "t \<in> set (team_universe ?gs)"
        and r: "r = make_record tm (t, tally ?gs t zero_stats)" by blast
    let ?s = "tally ?gs t zero_stats"
    have "wins ?s + losses ?s + ties ?s = int (home_games ?gs t) + int (away_games ?gs t)"
      by (simp only: tally_zero_fields decided_total)
    with universe_appears[OF t] have ge: "1 \<le> wins ?s + losses ?s + ties ?s"
      by linarith
    then have "win_pct_of ?s = (of_int (wins ?s) + (1 / 2) * of_int (ties ?s))
                                 / of_int (wins ?s + losses ?s + ties ?s)"
      by (simp add: win_pct_of_def Let_def)
    with ge show ?thesis
      by (simp only: r make_record_fields)
  qed
  show ?thesis using data one by blast
qed

theorem every_record_has_a_decided_game_witness:
  "import_schedules sample_nfl 2023 = Inr sample_schedule \<and>
   import_team_desc sample_nfl = Inr sample_teams \<and>
   (\<exists>data. calculate_standings sample_nfl 2023 = Inr data \<and>
      (\<forall>r \<in> set data.
         1 \<le> wins r + losses r + ties r \<and>
         win_pct r = (of_int (wins r) + (1 / 2) * of_int (ties r))
                       / of_int (wins r + losses r + ties r)))"
proof -
  have s: "import_schedules sample_nfl 2023 = Inr sample_schedule"
    by (simp add: sample_nfl_def)
  have t: "import_team_desc sample_nfl = Inr sample_teams"
    by (simp add: sample_nfl_def)
  show ?thesis
    using s t every_record_has_a_decided_game[OF s t] by simp
qed

subsection \<open>Win percentage\<close>

text \<open>
  C4. For every emitted record the win percentage is (wins + ties / 2) divided by
  wins + losses + ties when that total is positive, and 0 otherwise; it lies between 0
  and 1.
\<close>

theorem win_pct_formula_and_range:
  assumes "import_schedules nfl year = Inr schedule" and "import_team_desc nfl = Inr tm"
  shows "\<exists>data. calculate_standings nfl year = Inr data \<and>
           (\<forall>r \<in> set data.
              win_pct r =
                (if 0 < wins r + losses r + ties r
                 then (of_int (wins r) + (1 / 2) * of_int (ties r))
                        / of_int (wins r + losses r + ties r)
                 else 0) \<and>
              0 \<le> win_pct r \<and> win_pct r \<le> 1)"
proof -
  let ?gs = "completed schedule"
  obtain data where data: "calculate_standings nfl year = Inr data"
    using calculate_standings_closed[OF assms] by simp
  have one: "win_pct r =
                (if 0 < wins r + losses r + ties r
                 then (of_int (wins r) + (1 / 2) * of_int (ties r))
                        / of_int (wins r + losses r + ties r)
                 else 0) \<and>
              0 \<le> win_pct r \<and> win_pct r \<le> 1"
    if "r \<in> set data" for r
  proof -
    from emitted_record[OF assms data that] obtain t
      where r: "r = make_record tm (t, tally ?gs t zero_stats)" by blast
    let ?s = "tally ?gs t zero_stats"
    have f: "win_pct_of ?s =
               (if 0 < wins ?s + losses ?s + ties ?s
                then (of_int (wins ?s) + (1 / 2) * of_int (ties ?s))
                       / of_int (wins ?s + losses ?s + ties ?s)
                else 0)"
      by (simp add: win_pct_of_def Let_def)
    have b: "0 \<le> win_pct_of ?s \<and> win_pct_of ?s \<le> 1"
      by (rule win_pct_of_bounds) (rule tally_nonneg)+
    show ?thesis
      using f b by (simp only: r make_record_fields)
  qed
  show ?thesis using data one by blast
qed

theorem win_pct_formula_and_range_witness:
  "import_schedules sample_nfl 2023 = Inr sample_schedule \<and>
   import_team_desc sample_nfl = Inr sample_teams \<and>
   (\<exists>data. calculate_standings sample_nfl 2023 = Inr data \<and>
      (\<forall>r \<in> set data.
         win_pct r =
           (if 0 < wins r + losses r + ties r
            then (of_int (wins r) + (1 / 2) * of_int (ties r))
                   / of_int (wins r + losses r + ties r)
            else 0) \<and>
         0 \<le> win_pct r \<and> win_pct r \<le> 1))"
proof -
  have s: "import_schedules sample_nfl 2023 = Inr sample_schedule"
    by (simp add: sample_nfl_def)
  have t: "import_team_desc sample_nfl = Inr sample_teams"
    by (simp add: sample_nfl_def)
  show ?thesis
    using s t win_pct_formula_and_range[OF s t] by simp
qed

subsection \<open>One game\<close>

lemma credit_points:
  "points_for (credit g t s) = points_for s + pf_credit g t"
  "points_against (credit g t s) = points_against s + pa_credit g t"
  by (simp_all add: credit_def)

text \<open>
  C3. When both teams of a game have an accumulator, the loop body raises nothing, and
  what it adds to the home team's points_for is what it adds to the away team's
  points_against, and what it adds to the away team's points_for is what it adds to the
  home team's points_against. The first amount is the home score and the second the away
  score; when one team is on both sides of the game, its single accumulator receives both.
\<close>

theorem update_game_points_symmetric:
  assumes "map_of st (home_team g) = Some h" and "map_of st (away_team g) = Some a"
  shows "\<exists>st' h' a'.
           update_game st g = Inr st' \<and>
           map_of st' (home_team g) = Some h' \<and> map_of st' (away_team g) = Some a' \<and>
           points_for h' - points_for h = points_against a' - points_against a \<and>
           points_for a' - points_for a = points_against h' - points_against h \<and>
           points_for h' - points_for h =
             home_score g + (if home_team g = away_team g then away_score g else 0) \<and>
           points_for a' - points_for a =
             away_score g + (if home_team g = away_team g then home_score g else 0)"
proof -
  have hk: "home_team g \<in> set (map fst st)"
    using assms(1) by (metis map_of_eq_None_iff option.distinct(1) set_map)
  have ak: "away_team g \<in> set (map fst st)"
    using assms(2) by (metis map_of_eq_None_iff option.distinct(1) set_map)
  from acts_update_game[OF hk ak] obtain st' where r: "update_game st g = Inr st'"
    and v: "\<And>t. map_of st' t = map_option (credit g t) (map_of st t)"
    unfolding acts_def by blast
  have h': "map_of st' (home_team g) = Some (credit g (home_team g) h)"
    by (simp add: v assms(1))
  have a': "map_of st' (away_team g) = Some (credit g (away_team g) a)"
    by (simp add: v assms(2))
  have "points_for (credit g (home_team g) h) - points_for h =
          points_against (credit g (away_team g) a) - points_against a"
    and "points_for (credit g (away_team g) a) - points_for a =
          points_against (credit g (home_team g) h) - points_against h"
    and "points_for (credit g (home_team g) h) - points_for h =
          home_score g + (if home_team g = away_team g then away_score g else 0)"
    and "points_for (credit g (away_team g) a) - points_for a =
          away_score g + (if home_team g = away_team g then home_score g else 0)"
    by (simp_all add: credit_points pf_credit_def pa_credit_def)
  with r h' a' show ?thesis by blast
qed

theorem update_game_points_symmetric_witness:
  "map_of (init_standings [''CHI'', ''GB'']) (home_team opening_game) = Some zero_stats \<and>
   map_of (init_standings [''CHI'', ''GB'']) (away_team opening_game) = Some zero_stats \<and>
   (\<exists>st' h' a'.
      update_game (init_standings [''CHI'', ''GB'']) opening_game = Inr st' \<and>
      map_of st' (home_team opening_game) = Some h' \<and>
      map_of st' (away_team opening_game) = Some a' \<and>
      points_for h' - points_for zero_stats = points_against a' - points_against zero_stats \<and>
      points_for a' - points_for zero_stats = points_against h' - points_against zero_stats \<and>
      points_for h' - points_for zero_stats =
        home_score opening_game +
        (if home_team opening_game = away_team opening_game then away_score opening_game
         else 0) \<and>
      points_for a' - points_for zero_stats =
        away_score opening_game +
        (if home_team opening_game = away_team opening_game then home_score opening_game
         else 0))"
proof -
  have h: "map_of (init_standings [''CHI'', ''GB'']) (home_team opening_game) = Some zero_stats"
    by (simp add: init_standings_def opening_game_def)
  have a: "map_of (init_standings [''CHI'', ''GB'']) (away_team opening_game) = Some zero_stats"
    by (simp add: init_standings_def opening_game_def)
  show ?thesis
    by (intro conjI h a update_game_points_symmetric[OF h a])
qed

subsection \<open>Order of the games\<close>

lemma perm_sum:
  assumes "mset gs' = mset gs"
  shows "(\<Sum>g\<leftarrow>gs'. f g) = (\<Sum>g\<leftarrow>gs. (f g :: int))"
proof -
  have "mset (map f gs') = mset (map f gs)"
    using assms by simp
  then have "sum_mset (mset (map f gs')) = sum_mset (mset (map f gs))"
    by (rule arg_cong)
  then show ?thesis by (simp only: sum_mset_sum_list)
qed

lemma perm_completed: "mset gs' = mset gs \<Longrightarrow> mset (completed gs') = mset (completed gs)"
  by (simp add: completed_def)

lemma perm_universe:
  assumes "mset gs' = mset gs"
  shows "set (team_universe gs') = set (team_universe gs)"
proof -
  from assms have "set gs' = set gs" by (rule mset_eq_setD)
  then show ?thesis by (simp add: set_team_universe)
qed

lemma find_emitted:
  "find (\<lambda>r. team_name r = t) (map (\<lambda>t. make_record tm (t, f t)) ts) =
     (if t \<in> set ts then Some (make_record tm (t, f t)) else None)"
  by (induction ts) (auto simp: make_record_fields)

lemma counters_emitted:
  "counters (make_record tm (t, tally gs t zero_stats)) =
     ((\<Sum>g\<leftarrow>gs. win_credit g t), (\<Sum>g\<leftarrow>gs. loss_credit g t), (\<Sum>g\<leftarrow>gs. tie_credit g t),
      (\<Sum>g\<leftarrow>gs. pf_credit g t), (\<Sum>g\<leftarrow>gs. pa_credit g t))"
  by (simp add: counters_def make_record_fields tally_zero_fields)

text \<open>
  C5. Two schedules that are permutations of each other give, for every team code, the
  same wins, losses, ties, points_for and points_against (and a record for the same
  teams).
\<close>

theorem standings_independent_of_game_order:
  assumes "import_schedules nfl year = Inr schedule"
    and "import_team_desc nfl = Inr tm"
    and "import_schedules nfl' year' = Inr schedule'"
    and "import_team_desc nfl' = Inr tm'"
    and "mset schedule' = mset schedule"
  shows "\<exists>data data'.
           calculate_standings nfl year = Inr data \<and>
           calculate_standings nfl' year' = Inr data' \<and>
           (\<forall>t. map_option counters (find (\<lambda>r. team_name r = t) data') =
                map_option counters (find (\<lambda>r. team_name r = t) data))"
proof -
  let ?gs = "completed schedule" and ?gs' = "completed schedule'"
  have p: "mset ?gs' = mset ?gs"
    using assms(5) by (rule perm_completed)
  have c: "counters (make_record tm' (t, tally ?gs' t zero_stats)) =
           counters (make_record tm (t, tally ?gs t zero_stats))" for t
    by (simp only: counters_emitted perm_sum[OF p])
  have same: "map_option counters
                (find (\<lambda>r. team_name r = t)
                   (map (\<lambda>t. make_record tm' (t, tally ?gs' t zero_stats)) (team_universe ?gs'))) =
              map_option counters
                (find (\<lambda>r. team_name r = t)
                   (map (\<lambda>t. make_record tm (t, tally ?gs t zero_stats)) (team_universe ?gs)))"
    for t
    by (simp add: find_emitted perm_universe[OF p] c)
  show ?thesis
    using same
    by (simp add: calculate_standings_closed[OF assms(1,2)]
        calculate_standings_closed[OF assms(3,4)])
qed

theorem standings_independent_of_game_order_witness:
  "import_schedules sample_nfl 2023 = Inr sample_schedule \<and>
   import_team_desc sample_nfl = Inr sample_teams \<and>
   import_schedules reversed_nfl 2023 = Inr (rev sample_schedule) \<and>
   import_team_desc reversed_nfl = Inr sample_teams \<and>
   mset (rev sample_schedule) = mset sample_schedule \<and>
   (\<exists>data data'.
      calculate_standings sample_nfl 2023 = Inr data \<and>
      calculate_standings reversed_nfl 2023 = Inr data' \<and>
      (\<forall>t. map_option counters (find (\<lambda>r. team_name r = t) data') =
           map_option counters (find (\<lambda>r. team_name r = t) data)))"
proof -
  have s: "import_schedules sample_nfl 2023 = Inr sample_schedule"
    by (simp add: sample_nfl_def)
  have t: "import_team_desc sample_nfl = Inr sample_teams"
    by (simp add: sample_nfl_def)
  have s': "import_schedules reversed_nfl 2023 = Inr (rev sample_schedule)"
    by (simp add: reversed_nfl_def)
  have t': "import_team_desc reversed_nfl = Inr sample_teams"
    by (simp add: reversed_nfl_def sample_nfl_def)
  have p: "mset (rev sample_schedule) = mset sample_schedule"
    by simp
  show ?thesis
    by (intro conjI s t s' t' p standings_independent_of_game_order[OF s t s' t' p])
qed

subsection \<open>Which teams are emitted\<close>

lemma completed_idem: "completed (completed gs) = completed gs"
  by (simp add: completed_def)

text \<open>
  C6. The aggregation emits one record for each team code that is the home or the away
  team of a retained game, and no other; the retained games are the games of the schedule
  whose result is not missing, and the games that are not retained have no effect on the
  output.
\<close>

theorem one_record_per_team_of_a_completed_game:
  assumes "import_schedules nfl year = Inr schedule" and "import_team_desc nfl = Inr tm"
  shows "\<exists>data.
           calculate_standings nfl year = Inr data \<and>
           distinct (map team_name data) \<and>
           set (map team_name data) =
             home_team ` set (completed schedule) \<union> away_team ` set (completed schedule) \<and>
           set (completed schedule) = {g \<in> set schedule. result g \<noteq> None} \<and>
           calculate_standings (nfl\<lparr>import_schedules := \<lambda>y. Inr (completed schedule)\<rparr>) year
             = Inr data"
proof -
  let ?gs = "completed schedule"
  let ?data = "map (\<lambda>t. make_record tm (t, tally ?gs t zero_stats)) (team_universe ?gs)"
  have names: "map team_name ?data = team_universe ?gs"
    by (simp add: comp_def make_record_fields)
  have other: "calculate_standings (nfl\<lparr>import_schedules := \<lambda>y. Inr ?gs\<rparr>) year = Inr ?data"
    using calculate_standings_closed[of "nfl\<lparr>import_schedules := \<lambda>y. Inr ?gs\<rparr>" year ?gs tm]
      assms(2)
    by (simp add: completed_idem)
  have kept: "set ?gs = {g \<in> set schedule. result g \<noteq> None}"
    by (simp add: completed_def)
  show ?thesis
  proof (intro exI[of _ ?data] conjI)
    show "calculate_standings nfl year = Inr ?data"
      by (rule calculate_standings_closed[OF assms])
    show "distinct (map team_name ?data)"
      by (simp only: names distinct_team_universe)
    show "set (map team_name ?data) = home_team ` set ?gs \<union> away_team ` set ?gs"
      by (simp only: names set_team_universe)
    show "set ?gs = {g \<in> set schedule. result g \<noteq> None}"
      by (rule kept)
    show "calculate_standings (nfl\<lparr>import_schedules := \<lambda>y. Inr ?gs\<rparr>) year = Inr ?data"
      by (rule other)
  qed
qed


theorem one_record_per_team_of_a_completed_game_witness:
  "import_schedules sample_nfl 2023 = Inr sample_schedule \<and>
   import_team_desc sample_nfl = Inr sample_teams \<and>
   (\<exists>data.
      calculate_standings sample_nfl 2023 = Inr data \<and>
      distinct (map team_name data) \<and>
      set (map team_name data) =
        home_team ` set (completed sample_schedule) \<union>
        away_team ` set (completed sample_schedule) \<and>
      set (completed sample_schedule) = {g \<in> set sample_schedule. result g \<noteq> None} \<and>
      calculate_standings
        (sample_nfl\<lparr>import_schedules := \<lambda>y. Inr (completed sample_schedule)\<rparr>) 2023
        = Inr data)"
proof -
  have s: "import_schedules sample_nfl 2023 = Inr sample_schedule"
    by (simp add: sample_nfl_def)
  have t: "import_team_desc sample_nfl = Inr sample_teams"
    by (simp add: sample_nfl_def)
  show ?thesis
    by (intro conjI s t one_record_per_team_of_a_completed_game[OF s t])
qed

subsection \<open>The team summary\<close>

lemma summary_of_data:
  "calculate_standings nfl year = Inr data \<Longrightarrow>
     get_bears_summary nfl year =
       Inr (case find (\<lambda>t. team_name t = ''CHI'') data of
              None \<Rightarrow> placeholder | Some bears \<Rightarrow> bears)"
  by (simp add: get_bears_summary_def)

lemma sample_summaries:
  "get_bears_summary sample_nfl 2023 =
     Inr \<lparr>wins = 2, losses = 0, ties = 0, points_for = 44, points_against = 27,
          team_name = ''CHI'', win_pct = 1,
          conference = Some ''NFC'', division = Some ''NFC North''\<rparr>"
  "get_bears_summary sample_nfl 2024 = Inr placeholder"
  "get_bears_summary sample_nfl 2025 = Inl (HTTPException 500 (DataUnavailable ''no schedule''))"
  by code_simp+

text \<open>
  C7. When the provider supplies its tables, the summary is the emitted record whose team
  code is \<^verbatim>\<open>CHI\<close> if there is one, and otherwise the placeholder, which is a result and
  not an error: its counters and its win percentage are 0 and it has no conference and no
  division.
\<close>

theorem bears_summary_record_or_placeholder:
  assumes "import_schedules nfl year = Inr schedule" and "import_team_desc nfl = Inr tm"
  shows "\<exists>data.
           calculate_standings nfl year = Inr data \<and>
           (\<forall>r \<in> set data. team_name r = ''CHI'' \<longrightarrow> get_bears_summary nfl year = Inr r) \<and>
           (''CHI'' \<notin> team_name ` set data \<longrightarrow>
              get_bears_summary nfl year = Inr placeholder) \<and>
           team_name placeholder = ''CHI'' \<and>
           wins placeholder = 0 \<and> losses placeholder = 0 \<and> ties placeholder = 0 \<and>
           points_for placeholder = 0 \<and> points_against placeholder = 0 \<and>
           win_pct placeholder = 0 \<and>
           conference placeholder = None \<and> division placeholder = None"
proof -
  let ?gs = "completed schedule"
  let ?mk = "\<lambda>t. make_record tm (t, tally ?gs t zero_stats)"
  let ?data = "map ?mk (team_universe ?gs)"
  have data: "calculate_standings nfl year = Inr ?data"
    by (rule calculate_standings_closed[OF assms])
  have found: "find (\<lambda>r. team_name r = ''CHI'') ?data =
                 (if ''CHI'' \<in> set (team_universe ?gs) then Some (?mk ''CHI'') else None)"
    by (rule find_emitted)
  have present: "get_bears_summary nfl year = Inr r"
    if "r \<in> set ?data" and "team_name r = ''CHI''" for r
  proof -
    from that(1) obtain t where t: "t \<in> set (team_universe ?gs)" and r: "r = ?mk t"
      by auto
    from that(2) r have "t = ''CHI''" by (simp add: make_record_fields)
    with t r show ?thesis
      by (simp add: summary_of_data[OF data] found)
  qed
  have absent: "get_bears_summary nfl year = Inr placeholder"
    if "''CHI'' \<notin> team_name ` set ?data"
  proof -
    have "team_name ` set ?data = set (team_universe ?gs)"
      by (simp add: image_image make_record_fields)
    with that have "''CHI'' \<notin> set (team_universe ?gs)" by simp
    then show ?thesis
      by (simp add: summary_of_data[OF data] found)
  qed
  have fields: "team_name placeholder = ''CHI'' \<and>
           wins placeholder = 0 \<and> losses placeholder = 0 \<and> ties placeholder = 0 \<and>
           points_for placeholder = 0 \<and> points_against placeholder = 0 \<and>
           win_pct placeholder = 0 \<and>
           conference placeholder = None \<and> division placeholder = None"
    by (simp add: placeholder_def)
  show ?thesis
    using data present absent fields by blast
qed

theorem bears_summary_record_or_placeholder_witness:
  "(import_schedules sample_nfl 2023 = Inr sample_schedule \<and>
    import_team_desc sample_nfl = Inr sample_teams \<and>
    (\<exists>data.
       calculate_standings sample_nfl 2023 = Inr data \<and>
       (\<forall>r \<in> set data. team_name r = ''CHI'' \<longrightarrow> get_bears_summary sample_nfl 2023 = Inr r) \<and>
       (''CHI'' \<notin> team_name ` set data \<longrightarrow>
          get_bears_summary sample_nfl 2023 = Inr placeholder) \<and>
       team_name placeholder = ''CHI'' \<and>
       wins placeholder = 0 \<and> losses placeholder = 0 \<and> ties placeholder = 0 \<and>
       points_for placeholder = 0 \<and> points_against placeholder = 0 \<and>
       win_pct placeholder = 0 \<and>
       conference placeholder = None \<and> division placeholder = None)) \<and>
   (import_schedules sample_nfl 2024 = Inr preseason_schedule \<and>
    (\<exists>data.
       calculate_standings sample_nfl 2024 = Inr data \<and>
       (\<forall>r \<in> set data. team_name r = ''CHI'' \<longrightarrow> get_bears_summary sample_nfl 2024 = Inr r) \<and>
       (''CHI'' \<notin> team_name ` set data \<longrightarrow>
          get_bears_summary sample_nfl 2024 = Inr placeholder) \<and>
       team_name placeholder = ''CHI'' \<and>
       wins placeholder = 0 \<and> losses placeholder = 0 \<and> ties placeholder = 0 \<and>
       points_for placeholder = 0 \<and> points_against placeholder = 0 \<and>
       win_pct placeholder = 0 \<and>
       conference placeholder = None \<and> division placeholder = None))"
proof -
  have s: "import_schedules sample_nfl 2023 = Inr sample_schedule"
    by (simp add: sample_nfl_def)
  have s': "import_schedules sample_nfl 2024 = Inr preseason_schedule"
    by (simp add: sample_nfl_def)
  have t: "import_team_desc sample_nfl = Inr sample_teams"
    by (simp add: sample_nfl_def)
  show ?thesis
    by (intro conjI s s' t bears_summary_record_or_placeholder[OF s t]
        bears_summary_record_or_placeholder[OF s' t])
qed

subsection \<open>The roster\<close>

lemma fillna_not_NaN: "fillna c \<noteq> NaN"
  by (cases c) (simp_all add: fillna_def)

text \<open>
  C9, as stated, fails: a field of the allow-list that is not a column of the provider's
  table is left out of every entry. The roster of 2024 has the columns \<^verbatim>\<open>team\<close>,
  \<^verbatim>\<open>player_name\<close> and \<^verbatim>\<open>position\<close> only; its entry has two fields, not seven.
\<close>

theorem roster_fields_counterexample:
  "get_bears_roster sample_nfl 2024 =
     Inr [[(''player_name'', Str ''A. Back''), (''position'', Str [])]] \<and>
   map fst [(''player_name'', Str ''A. Back''), (''position'', Str [])] \<noteq> cols_to_keep"
  by code_simp

lemma sample_roster_entries:
  "get_bears_roster sample_nfl 2023 =
     Inr [[(''player_name'', Str ''A. Back''), (''position'', Str ''RB''),
           (''jersey_number'', Num 32), (''status'', Str ''ACT''), (''college'', Str []),
           (''years_exp'', Num 2), (''headshot_url'', Str [])]]"
  by code_simp

text \<open>
  C9, amended. When the provider supplies a roster table that has a \<^verbatim>\<open>team\<close> column,
  there is one entry for each row of \<^verbatim>\<open>CHI\<close>; the fields of an entry are the fields of the
  allow-list that are columns of the table, in the order of the allow-list (all seven when
  the table has them all); the value of a field is the row's value, or the empty string
  when the row's value is missing.
\<close>

theorem roster_entries_have_the_available_fields:
  assumes "import_seasonal_rosters nfl year = Inr df" and "''team'' \<in> set (columns df)"
  shows "\<exists>entries.
           get_bears_roster nfl year = Inr entries \<and>
           list_all2
             (\<lambda>r e. e = map (\<lambda>c. (c, if r c = NaN then Str [] else r c))
                           (filter (\<lambda>c. c \<in> set (columns df)) cols_to_keep))
             (filter (\<lambda>r. r ''team'' = Str ''CHI'') (rows df)) entries \<and>
           (\<forall>e \<in> set entries.
              map fst e = filter (\<lambda>c. c \<in> set (columns df)) cols_to_keep \<and>
              NaN \<notin> snd ` set e) \<and>
           (set cols_to_keep \<subseteq> set (columns df) \<longrightarrow>
              (\<forall>e \<in> set entries. map fst e = cols_to_keep))"
proof -
  let ?avail = "filter (\<lambda>c. c \<in> set (columns df)) cols_to_keep"
  let ?bears = "filter (\<lambda>r. r ''team'' = Str ''CHI'') (rows df)"
  let ?entry = "\<lambda>r. map (\<lambda>c. (c, fillna (r c))) ?avail"
  have fill: "fillna c = (if c = NaN then Str [] else c)" for c
    by (cases c) (simp_all add: fillna_def)
  have r: "get_bears_roster nfl year = Inr (map ?entry ?bears)"
    using assms by (simp add: get_bears_roster_def Let_def)
  have rel: "list_all2 (\<lambda>r e. e = map (\<lambda>c. (c, if r c = NaN then Str [] else r c)) ?avail)
               ?bears (map ?entry ?bears)"
    by (simp add: list_all2_map2 list_all2_same fill)
  have keys: "map fst e = ?avail \<and> NaN \<notin> snd ` set e" if "e \<in> set (map ?entry ?bears)" for e
  proof -
    from that obtain row where e: "e = ?entry row" by auto
    have "map fst (?entry row) = ?avail" by (simp add: comp_def)
    moreover have "NaN \<notin> snd ` set (?entry row)"
      using fillna_not_NaN by (auto simp: image_iff) metis
    ultimately show ?thesis unfolding e by (rule conjI)
  qed
  have full: "map fst e = cols_to_keep"
    if "set cols_to_keep \<subseteq> set (columns df)" and "e \<in> set (map ?entry ?bears)" for e
  proof -
    from that(1) have "?avail = cols_to_keep"
      by (simp add: filter_id_conv subset_iff)
    with keys[OF that(2)] show ?thesis by simp
  qed
  show ?thesis
    using r rel keys full by blast
qed

theorem roster_entries_have_the_available_fields_witness:
  "import_seasonal_rosters sample_nfl 2023 = Inr sample_roster \<and>
   ''team'' \<in> set (columns sample_roster) \<and>
   (\<exists>entries.
      get_bears_roster sample_nfl 2023 = Inr entries \<and>
      list_all2
        (\<lambda>r e. e = map (\<lambda>c. (c, if r c = NaN then Str [] else r c))
                      (filter (\<lambda>c. c \<in> set (columns sample_roster)) cols_to_keep))
        (filter (\<lambda>r. r ''team'' = Str ''CHI'') (rows sample_roster)) entries \<and>
      (\<forall>e \<in> set entries.
         map fst e = filter (\<lambda>c. c \<in> set (columns sample_roster)) cols_to_keep \<and>
         NaN \<notin> snd ` set e) \<and>
      (set cols_to_keep \<subseteq> set (columns sample_roster) \<longrightarrow>
         (\<forall>e \<in> set entries. map fst e = cols_to_keep)))"
proof -
  have d: "import_seasonal_rosters sample_nfl 2023 = Inr sample_roster"
    by (simp add: sample_nfl_def)
  have c: "''team'' \<in> set (columns sample_roster)"
    by (simp add: sample_roster_def)
  show ?thesis
    by (intro conjI d c roster_entries_have_the_available_fields[OF d c])
qed

end
